theory Spec2Isabelle
  imports Complex_Main "HOL-Library.AList"
begin

section \<open>Data model\<close>

text \<open>
  The analysis reads two lists of simplified itineraries (the files
  \<^verbatim>\<open>kiwi-simplified.json\<close> and \<^verbatim>\<open>edreams-simplified.json\<close>). A simplified segment is a
  dictionary of six string fields. The analysis only ever tests such a field for
  truthiness, compares it with a non-empty string, or looks it up in a set of non-empty
  strings, so an absent or null field behaves exactly like the empty string and is
  represented by it.
\<close>

record segment =
  sourceStationId :: string
  destinationStationId :: string
  departureLocalTime :: string
  arrivalLocalTime :: string
  flightCode :: string
  carrierCode :: string

text \<open>
  An itinerary as loaded from JSON. \<open>itin_id\<close> is \<open>None\<close> when the key \<^verbatim>\<open>"id"\<close> is
  absent (then \<^verbatim>\<open>it["id"]\<close> raises). \<open>price\<close> is \<open>None\<close> when \<^verbatim>\<open>float(it["price"])\<close>
  raises (key absent, null, or a string that is no number); otherwise it is the number
  read, taken as a rational: rounding of binary floating point is outside this model.
  \<^verbatim>\<open>itin.get("outbound", [])\<close> makes an absent leg the empty list.
\<close>

record itinerary =
  itin_id :: "string option"
  price :: "rat option"
  outbound :: "segment list"
  inbound :: "segment list"

text \<open>The raw Kiwi sector segment, as far as \<^verbatim>\<open>generate_itinerary_id\<close> reads it
  (every \<^verbatim>\<open>.get\<close> there defaults to the empty string).\<close>

record kiwi_segment =
  k_source :: string
  k_destination :: string
  k_carrier_code :: string
  k_code :: string

record kiwi_itinerary =
  k_outbound :: "kiwi_segment list"
  k_inbound :: "kiwi_segment list"

datatype error =
    KeyError            \<comment> \<open>\<^verbatim>\<open>it["id"]\<close> on a record without the key\<close>
  | PriceError          \<comment> \<open>\<^verbatim>\<open>float(it["price"])\<close> raised\<close>
  | EmptyMinError       \<comment> \<open>\<^verbatim>\<open>min()\<close> of an empty sequence (a ValueError)\<close>
  | ZeroDivisionError

section \<open>Strings\<close>

text \<open>Python's \<^verbatim>\<open>str\<close> of a non-negative integer, and \<^verbatim>\<open>sep.join\<close>.\<close>

definition digit_char :: "nat \<Rightarrow> char" where
  "digit_char n = ''0123456789'' ! n"

fun str_nat :: "nat \<Rightarrow> string" where
  "str_nat n = (if n < 10 then [digit_char n] else str_nat (n div 10) @ [digit_char (n mod 10)])"

declare str_nat.simps [simp del]

fun join :: "string \<Rightarrow> string list \<Rightarrow> string" where
  "join sep [] = []"
| "join sep [x] = x"
| "join sep (x # y # ys) = x @ sep @ join sep (y # ys)"

section \<open>Canonical identity builders\<close>

text \<open>\<^verbatim>\<open>generate_itinerary_id\<close> of mapper-kiwi.py.\<close>

definition generate_itinerary_id :: "kiwi_itinerary \<Rightarrow> string" where
  "generate_itinerary_id itinerary =
     (let sectors = k_outbound itinerary @ k_inbound itinerary;
          segments = map (\<lambda>s. k_carrier_code s @ ''-'' @ k_code s) sectors;
          carriers = set (map k_carrier_code sectors);
          segment_count = length segments;
          carrier_count = card carriers
      in ''s'' @ str_nat segment_count @ ''-c'' @ str_nat carrier_count @ ''-'' @ join ''-'' segments)"

text \<open>\<^verbatim>\<open>generate_edreams_itinerary_id\<close> of analysis-combined.py; the first argument of the
  source (the raw itinerary) is not read by it.\<close>

definition generate_edreams_itinerary_id :: "segment list \<Rightarrow> nat \<Rightarrow> string" where
  "generate_edreams_itinerary_id segments section_count =
     (let carriers = set (map carrierCode segments);
          carrier_count = card carriers;
          segment_details = map (\<lambda>seg. ''-'' @ carrierCode seg @ ''-'' @ drop 2 (flightCode seg)) segments
      in ''s'' @ str_nat section_count @ ''-c'' @ str_nat carrier_count @ concat segment_details)"

text \<open>The ordered (carrier, flight number) pairs the two builders write into the identity.\<close>

definition kiwi_pairs :: "kiwi_itinerary \<Rightarrow> (string \<times> string) list" where
  "kiwi_pairs itinerary =
     map (\<lambda>s. (k_carrier_code s, k_code s)) (k_outbound itinerary @ k_inbound itinerary)"

definition edreams_pairs :: "segment list \<Rightarrow> (string \<times> string) list" where
  "edreams_pairs segments = map (\<lambda>seg. (carrierCode seg, drop 2 (flightCode seg))) segments"

section \<open>Hub counts\<close>

text \<open>\<^verbatim>\<open>compute_hub_count\<close> of analysis-combined.py.\<close>

definition compute_hub_count :: "itinerary \<Rightarrow> int" where
  "compute_hub_count itin =
     (let hubs_outbound = (if length (outbound itin) > 0 then int (length (outbound itin)) - 1 else 0);
          hubs_inbound = (if length (inbound itin) > 0 then int (length (inbound itin)) - 1 else 0)
      in max hubs_outbound hubs_inbound)"

section \<open>Field access after validation\<close>

text \<open>
  \<^verbatim>\<open>entry["id"]\<close> and \<^verbatim>\<open>float(entry["price"])\<close> as values. \<open>analyze_journey\<close> below first runs
  the statements that can raise on these reads (the deduplication loop over the Kiwi list,
  the id set and the minimum price of the eDreams list) and returns the error; the later
  stages read only records that passed, where the two accessors are the values read.
\<close>

definition id_of :: "itinerary \<Rightarrow> string" where
  "id_of entry = the (itin_id entry)"

definition price_of :: "itinerary \<Rightarrow> rat" where
  "price_of entry = the (price entry)"

text \<open>\<^verbatim>\<open>100 * a / b if b else 0\<close>, the guarded percentage written inline throughout the source.\<close>

definition pct :: "nat \<Rightarrow> nat \<Rightarrow> rat" where
  "pct a b = (if b \<noteq> 0 then 100 * of_nat a / of_nat b else 0)"

section \<open>Deduplication\<close>

text \<open>
  A Python dictionary keeps its keys in insertion order; assigning to a key that is present
  replaces the value in place. It is an association list under \<open>AList.update\<close>.
  \<open>dedup_step\<close> is the body of the loop of lines 193 to 198 of analysis-combined.py,
  \<open>dedup_loop\<close> the loop, stopping at the first exception.
\<close>

definition dedup_step :: "(string \<times> itinerary) list \<Rightarrow> itinerary \<Rightarrow> error + (string \<times> itinerary) list" where
  "dedup_step unique_kiwi_dict it =
     (case itin_id it of
        None \<Rightarrow> Inl KeyError
      | Some it_id \<Rightarrow>
         (case price it of
            None \<Rightarrow> Inl PriceError
          | Some it_price \<Rightarrow>
             (case map_of unique_kiwi_dict it_id of
                None \<Rightarrow> Inr (AList.update it_id it unique_kiwi_dict)
              | Some kept \<Rightarrow>
                 (case price kept of
                    None \<Rightarrow> Inl PriceError
                  | Some kept_price \<Rightarrow>
                      Inr (if it_price < kept_price
                           then AList.update it_id it unique_kiwi_dict
                           else unique_kiwi_dict)))))"

fun dedup_loop :: "(string \<times> itinerary) list \<Rightarrow> itinerary list \<Rightarrow> error + (string \<times> itinerary) list" where
  "dedup_loop unique_kiwi_dict [] = Inr unique_kiwi_dict"
| "dedup_loop unique_kiwi_dict (it # rest) =
     (case dedup_step unique_kiwi_dict it of
        Inl e \<Rightarrow> Inl e
      | Inr d \<Rightarrow> dedup_loop d rest)"

definition dedup_kiwi :: "itinerary list \<Rightarrow> error + (string \<times> itinerary) list" where
  "dedup_kiwi kiwi_data = dedup_loop [] kiwi_data"

text \<open>\<^verbatim>\<open>{it["id"]: it for it in kiwi_data}\<close> of lines 452 and 457: every record is assigned
  to its key, so a later record replaces an earlier one of the same id.\<close>

definition dict_by_id :: "itinerary list \<Rightarrow> (string \<times> itinerary) list" where
  "dict_by_id its = foldl (\<lambda>d it. AList.update (id_of it) it d) [] its"

text \<open>\<^verbatim>\<open>remove_duplicates\<close> of test1/remove-duplicates.py, between reading and writing the
  file: a record without a truthy id is skipped, the first record of each id is kept.\<close>

fun remove_duplicates_loop :: "(string \<times> itinerary) list \<Rightarrow> itinerary list \<Rightarrow> (string \<times> itinerary) list" where
  "remove_duplicates_loop unique_itineraries [] = unique_itineraries"
| "remove_duplicates_loop unique_itineraries (entry # rest) =
     (case itin_id entry of
        None \<Rightarrow> remove_duplicates_loop unique_itineraries rest
      | Some itinerary_id \<Rightarrow>
          if itinerary_id \<noteq> [] \<and> map_of unique_itineraries itinerary_id = None
          then remove_duplicates_loop (AList.update itinerary_id entry unique_itineraries) rest
          else remove_duplicates_loop unique_itineraries rest)"

definition remove_duplicates :: "itinerary list \<Rightarrow> itinerary list" where
  "remove_duplicates data = map snd (remove_duplicates_loop [] data)"

section \<open>Reading ids and minimum prices\<close>

text \<open>\<^verbatim>\<open>{entry["id"] for entry in edreams_data}\<close>: raises at the first record without id.\<close>

fun read_ids :: "itinerary list \<Rightarrow> error + string list" where
  "read_ids [] = Inr []"
| "read_ids (entry # rest) =
     (case itin_id entry of
        None \<Rightarrow> Inl KeyError
      | Some i \<Rightarrow> (case read_ids rest of Inl e \<Rightarrow> Inl e | Inr is \<Rightarrow> Inr (i # is)))"

fun read_prices :: "itinerary list \<Rightarrow> error + rat list" where
  "read_prices [] = Inr []"
| "read_prices (entry # rest) =
     (case price entry of
        None \<Rightarrow> Inl PriceError
      | Some p \<Rightarrow> (case read_prices rest of Inl e \<Rightarrow> Inl e | Inr ps \<Rightarrow> Inr (p # ps)))"

text \<open>\<^verbatim>\<open>min(float(entry["price"]) for entry in data)\<close>.\<close>

definition min_price :: "itinerary list \<Rightarrow> error + rat" where
  "min_price data =
     (case read_prices data of
        Inl e \<Rightarrow> Inl e
      | Inr [] \<Rightarrow> Inl EmptyMinError
      | Inr (p # ps) \<Rightarrow> Inr (fold min ps p))"

section \<open>Set reconciliation\<close>

definition ids :: "itinerary list \<Rightarrow> string set" where
  "ids entries = set (map id_of entries)"

definition repeated_itineraries :: "itinerary list \<Rightarrow> itinerary list \<Rightarrow> string set" where
  "repeated_itineraries unique_kiwi edreams_data = ids unique_kiwi \<inter> ids edreams_data"

definition missing_in_edreams :: "itinerary list \<Rightarrow> itinerary list \<Rightarrow> string set" where
  "missing_in_edreams unique_kiwi edreams_data = ids unique_kiwi - ids edreams_data"

text \<open>Line 213: taken over the raw list \<open>kiwi_data\<close>.\<close>

definition cheaper_than_edo_cheapest_itineraries :: "itinerary list \<Rightarrow> rat \<Rightarrow> string list" where
  "cheaper_than_edo_cheapest_itineraries kiwi_data cheapest_edreams_price =
     map id_of (filter (\<lambda>entry. price_of entry < cheapest_edreams_price) kiwi_data)"

text \<open>\<^verbatim>\<open>float(next(entry["price"] for entry in data if entry["id"] == itinerary_id))\<close>: the
  price of the first record of that id. It is only evaluated for ids of the intersection,
  where such a record exists.\<close>

definition first_price :: "itinerary list \<Rightarrow> string \<Rightarrow> rat" where
  "first_price data itinerary_id = price_of (the (find (\<lambda>entry. id_of entry = itinerary_id) data))"

text \<open>The loop of lines 225 to 235 visits every repeated id once and raises one of two
  counters; the counters do not depend on the order of the visit.\<close>

definition eDreams_cheaper_count :: "itinerary list \<Rightarrow> itinerary list \<Rightarrow> nat" where
  "eDreams_cheaper_count unique_kiwi edreams_data =
     card (Set.filter (\<lambda>i. first_price edreams_data i < first_price unique_kiwi i)
             (repeated_itineraries unique_kiwi edreams_data))"

definition kiwi_cheaper_count :: "itinerary list \<Rightarrow> itinerary list \<Rightarrow> nat" where
  "kiwi_cheaper_count unique_kiwi edreams_data =
     card (Set.filter (\<lambda>i. \<not> first_price edreams_data i < first_price unique_kiwi i
                          \<and> first_price unique_kiwi i < first_price edreams_data i)
             (repeated_itineraries unique_kiwi edreams_data))"

definition count_cheaper_non_repeated_kiwi :: "itinerary list \<Rightarrow> itinerary list \<Rightarrow> rat \<Rightarrow> nat" where
  "count_cheaper_non_repeated_kiwi unique_kiwi edreams_data cheapest_edreams_price =
     (let not_repeated_kiwi = ids unique_kiwi - repeated_itineraries unique_kiwi edreams_data
      in length (filter (\<lambda>entry. id_of entry \<in> not_repeated_kiwi
                                \<and> price_of entry < cheapest_edreams_price) unique_kiwi))"

definition total_unique_itineraries :: "itinerary list \<Rightarrow> itinerary list \<Rightarrow> int" where
  "total_unique_itineraries unique_kiwi edreams_data =
     int (length unique_kiwi) + int (card (ids edreams_data))
       - int (card (repeated_itineraries unique_kiwi edreams_data))"

text \<open>Line 249, the one percentage of the analysis that is divided without a guard.\<close>

definition percent_kiwi_cheaper_overall_of :: "itinerary list \<Rightarrow> itinerary list \<Rightarrow> rat \<Rightarrow> error + rat" where
  "percent_kiwi_cheaper_overall_of unique_kiwi edreams_data cheapest_edreams_price =
     (let kiwi_cheaper_total = count_cheaper_non_repeated_kiwi unique_kiwi edreams_data cheapest_edreams_price
                                 + kiwi_cheaper_count unique_kiwi edreams_data
      in if total_unique_itineraries unique_kiwi edreams_data = 0 then Inl ZeroDivisionError
         else Inr (100 * of_nat kiwi_cheaper_total
                     / of_int (total_unique_itineraries unique_kiwi edreams_data)))"

section \<open>Hub coverage\<close>

text \<open>Lines 252 to 276: the truthy station codes of all segments of a list of itineraries.\<close>

definition locations :: "itinerary list \<Rightarrow> string set" where
  "locations itineraries =
     set (filter (\<lambda>code. code \<noteq> [])
           (concat (map (\<lambda>itin. concat (map (\<lambda>seg. [sourceStationId seg, destinationStationId seg])
                                         (outbound itin @ inbound itin))) itineraries)))"

definition missing_locations :: "itinerary list \<Rightarrow> itinerary list \<Rightarrow> string set" where
  "missing_locations unique_kiwi edreams_data = locations unique_kiwi - locations edreams_data"

definition uses_hub :: "string \<Rightarrow> itinerary \<Rightarrow> bool" where
  "uses_hub hub itin =
     (list_ex (\<lambda>seg. sourceStationId seg = hub \<or> destinationStationId seg = hub) (outbound itin)
      \<or> list_ex (\<lambda>seg. sourceStationId seg = hub \<or> destinationStationId seg = hub) (inbound itin))"

record hub_row =
  Hub :: string
  Usage :: nat
  Cheaper_Usage :: nat

text \<open>
  Lines 281 to 308: \<^verbatim>\<open>for hub in missing_locations\<close> appends one row per hub to the list
  \<open>hub_breakdown\<close>. \<open>missing_locations\<close> is a Python set of strings; the order in which the
  loop visits it is chosen by the interpreter (string hashing is seeded per process) and is
  the argument \<open>hub_order\<close>: a list of the elements of the set, each once.
\<close>

definition hub_breakdown :: "string list \<Rightarrow> itinerary list \<Rightarrow> string list \<Rightarrow> hub_row list" where
  "hub_breakdown hub_order unique_kiwi cheaper_ids =
     map (\<lambda>hub. \<lparr>Hub = hub,
                  Usage = length (filter (uses_hub hub) unique_kiwi),
                  Cheaper_Usage = length (filter (\<lambda>itin. uses_hub hub itin \<and> id_of itin \<in> set cheaper_ids)
                                            unique_kiwi)\<rparr>)
         hub_order"

definition iteration_order_of :: "string list \<Rightarrow> string set \<Rightarrow> bool" where
  "iteration_order_of hub_order S = (distinct hub_order \<and> set hub_order = S)"

section \<open>Flight coverage and constructibility\<close>

text \<open>The set built by the loops of lines 371 to 374 (and 350 to 363): the string
  carrierCode + flightCode of every segment where both are truthy.\<close>

definition flight_strings :: "segment list \<Rightarrow> string set" where
  "flight_strings segs =
     set (map (\<lambda>seg. carrierCode seg @ flightCode seg)
            (filter (\<lambda>seg. carrierCode seg \<noteq> [] \<and> flightCode seg \<noteq> []) segs))"

definition edreams_flights :: "itinerary list \<Rightarrow> string set" where
  "edreams_flights edreams_data =
     flight_strings (concat (map (\<lambda>itin. outbound itin @ inbound itin) edreams_data))"

text \<open>The test of lines 375 and 388.\<close>

definition constructible :: "string set \<Rightarrow> itinerary \<Rightarrow> bool" where
  "constructible flights itin =
     (let kiwi_flights = flight_strings (outbound itin @ inbound itin)
      in kiwi_flights \<noteq> {} \<and> kiwi_flights \<subseteq> flights)"

definition constructible_count :: "itinerary list \<Rightarrow> itinerary list \<Rightarrow> nat" where
  "constructible_count unique_kiwi edreams_data =
     length (filter (\<lambda>itin. id_of itin \<in> missing_in_edreams unique_kiwi edreams_data
                           \<and> constructible (edreams_flights edreams_data) itin) unique_kiwi)"

definition cheap_kiwi_itins :: "itinerary list \<Rightarrow> rat \<Rightarrow> itinerary list" where
  "cheap_kiwi_itins unique_kiwi cheapest_edreams_price =
     filter (\<lambda>itin. price_of itin < cheapest_edreams_price) unique_kiwi"

definition constructible_cheap_count :: "itinerary list \<Rightarrow> itinerary list \<Rightarrow> rat \<Rightarrow> nat" where
  "constructible_cheap_count unique_kiwi edreams_data cheapest_edreams_price =
     length (filter (constructible (edreams_flights edreams_data))
               (cheap_kiwi_itins unique_kiwi cheapest_edreams_price))"

section \<open>Hub distribution\<close>

text \<open>\<^verbatim>\<open>hub_distribution\<close>: \<^verbatim>\<open>dist[count] = dist.get(count, 0) + 1\<close> for every itinerary.\<close>

definition hub_distribution :: "itinerary list \<Rightarrow> (int \<times> nat) list" where
  "hub_distribution itineraries =
     foldl (\<lambda>hub_dist itin.
              let count = compute_hub_count itin
              in AList.update count ((case map_of hub_dist count of None \<Rightarrow> 0 | Some v \<Rightarrow> v) + 1) hub_dist)
           [] itineraries"

text \<open>
  \<^verbatim>\<open>format_distribution\<close>: the items sorted by hub count, each with its percentage of
  the total. The source renders each row as text with two decimals; the row is kept as the
  triple of hub count, frequency and percentage. The division is not guarded; it is
  evaluated once per item.
\<close>

definition format_distribution :: "(int \<times> nat) list \<Rightarrow> nat \<Rightarrow> error + (int \<times> nat \<times> rat) list" where
  "format_distribution hub_dist total_count =
     (if hub_dist \<noteq> [] \<and> total_count = 0 then Inl ZeroDivisionError
      else Inr (map (\<lambda>(k, v). (k, v, 100 * of_nat v / of_nat total_count)) (sort_key fst hub_dist)))"

text \<open>Lines 452 and 457: the lists the hub distributions are computed over.\<close>

definition unique_kiwi_for_hubs :: "itinerary list \<Rightarrow> itinerary list" where
  "unique_kiwi_for_hubs kiwi_data = map snd (dict_by_id kiwi_data)"

definition unique_cheap :: "itinerary list \<Rightarrow> rat \<Rightarrow> itinerary list" where
  "unique_cheap kiwi_data cheapest_edreams_price =
     map snd (dict_by_id (filter (\<lambda>it. price_of it < cheapest_edreams_price) kiwi_data))"

section \<open>The analysis of one journey\<close>

text \<open>
  The report of \<^verbatim>\<open>analyze_journey\<close>, with the fields of the source's result dictionary that
  the reconciliation, constructibility, hub breakdown and hub distribution stages produce.
  Counts and percentages that the source joins into one text cell are separate fields.
  The pass-through metadata, the mean price differences, the counts of itineraries
  through missing hubs, the missing flights and carriers and the FR breakdown are not part
  of this record.
\<close>

record results =
  Total_Kiwi :: nat
  Total_eDreams :: nat
  Repeated :: nat
  repeated_percent_kiwi :: rat
  repeated_percent_edreams :: rat
  missing_content :: nat
  missing_content_pct :: rat
  Cheapest_eDreams :: rat
  Cheapest_Kiwi :: rat
  Kiwi_cheaper :: nat
  percent_kiwi_cheaper_repeated :: rat
  eDreams_cheaper :: nat
  percent_eDreams_cheaper_repeated :: rat
  percent_kiwi_cheaper_overall :: rat
  cheaper_than_edo_cheapest_count :: nat
  percent_over_kiwi :: rat
  percent_over_edreams :: rat
  Missing_Hub_Cities :: "string set"
  Hub_Breakdown :: "hub_row list"
  Constructible :: nat
  constructible_pct :: rat
  Constructible_among_Cheap_Kiwi :: nat
  constructible_cheap_pct :: rat
  Hubs_Distribution_All_Kiwi :: "(int \<times> nat \<times> rat) list"
  Hubs_Distribution_Cheap_Kiwi :: "(int \<times> nat \<times> rat) list"

text \<open>
  \<^verbatim>\<open>analyze_journey\<close> from the two loaded lists on. The statements that can raise come in
  the order of the source: the deduplication loop (lines 192 to 198), the eDreams id set
  (line 204), the two minima (lines 210 and 211), the unguarded division (line 249) and
  the two calls of \<^verbatim>\<open>format_distribution\<close> (lines 455 and 460).
\<close>

definition analyze_journey :: "string list \<Rightarrow> itinerary list \<Rightarrow> itinerary list \<Rightarrow> error + results" where
  "analyze_journey hub_order kiwi_data edreams_data =
     (case dedup_kiwi kiwi_data of Inl e \<Rightarrow> Inl e | Inr unique_kiwi_dict \<Rightarrow>
      (case read_ids edreams_data of Inl e \<Rightarrow> Inl e | Inr edreams_id_list \<Rightarrow>
       (case min_price edreams_data of Inl e \<Rightarrow> Inl e | Inr cheapest_edreams_price \<Rightarrow>
        (case min_price kiwi_data of Inl e \<Rightarrow> Inl e | Inr cheapest_kiwi_price \<Rightarrow>
         (let unique_kiwi = map snd unique_kiwi_dict in
          case percent_kiwi_cheaper_overall_of unique_kiwi edreams_data cheapest_edreams_price of
            Inl e \<Rightarrow> Inl e | Inr overall \<Rightarrow>
          (case format_distribution (hub_distribution (unique_kiwi_for_hubs kiwi_data))
                  (length (unique_kiwi_for_hubs kiwi_data)) of
             Inl e \<Rightarrow> Inl e | Inr formatted_all_hub_dist \<Rightarrow>
           (case format_distribution (hub_distribution (unique_cheap kiwi_data cheapest_edreams_price))
                   (length (unique_cheap kiwi_data cheapest_edreams_price)) of
              Inl e \<Rightarrow> Inl e | Inr formatted_cheap_hub_dist \<Rightarrow>
            Inr \<lparr>Total_Kiwi = length (unique_kiwi_for_hubs kiwi_data),
                 Total_eDreams = card (ids edreams_data),
                 Repeated = card (repeated_itineraries unique_kiwi edreams_data),
                 repeated_percent_kiwi =
                   pct (card (repeated_itineraries unique_kiwi edreams_data)) (length unique_kiwi),
                 repeated_percent_edreams =
                   pct (card (repeated_itineraries unique_kiwi edreams_data)) (card (ids edreams_data)),
                 missing_content = card (missing_in_edreams unique_kiwi edreams_data),
                 missing_content_pct =
                   pct (card (missing_in_edreams unique_kiwi edreams_data)) (length unique_kiwi),
                 Cheapest_eDreams = cheapest_edreams_price,
                 Cheapest_Kiwi = cheapest_kiwi_price,
                 Kiwi_cheaper = kiwi_cheaper_count unique_kiwi edreams_data,
                 percent_kiwi_cheaper_repeated =
                   pct (kiwi_cheaper_count unique_kiwi edreams_data)
                       (card (repeated_itineraries unique_kiwi edreams_data)),
                 eDreams_cheaper = eDreams_cheaper_count unique_kiwi edreams_data,
                 percent_eDreams_cheaper_repeated =
                   pct (eDreams_cheaper_count unique_kiwi edreams_data)
                       (card (repeated_itineraries unique_kiwi edreams_data)),
                 percent_kiwi_cheaper_overall = overall,
                 cheaper_than_edo_cheapest_count =
                   length (cheaper_than_edo_cheapest_itineraries kiwi_data cheapest_edreams_price),
                 percent_over_kiwi =
                   pct (length (cheaper_than_edo_cheapest_itineraries kiwi_data cheapest_edreams_price))
                       (length unique_kiwi),
                 percent_over_edreams =
                   pct (length (cheaper_than_edo_cheapest_itineraries kiwi_data cheapest_edreams_price))
                       (card (ids edreams_data)),
                 Missing_Hub_Cities = missing_locations unique_kiwi edreams_data,
                 Hub_Breakdown =
                   hub_breakdown hub_order unique_kiwi
                     (cheaper_than_edo_cheapest_itineraries kiwi_data cheapest_edreams_price),
                 Constructible = constructible_count unique_kiwi edreams_data,
                 constructible_pct =
                   pct (constructible_count unique_kiwi edreams_data)
                       (card (missing_in_edreams unique_kiwi edreams_data)),
                 Constructible_among_Cheap_Kiwi =
                   constructible_cheap_count unique_kiwi edreams_data cheapest_edreams_price,
                 constructible_cheap_pct =
                   pct (constructible_cheap_count unique_kiwi edreams_data cheapest_edreams_price)
                       (length (cheap_kiwi_itins unique_kiwi cheapest_edreams_price)),
                 Hubs_Distribution_All_Kiwi = formatted_all_hub_dist,
                 Hubs_Distribution_Cheap_Kiwi = formatted_cheap_hub_dist\<rparr>)))))))"

section \<open>Specification of the deduplicated collection\<close>

text \<open>
  A record is well formed when it has an identity and a price that reads as a number.
  \<open>retained_for xs i r\<close> says, in the words of the specification, which record of the raw
  list \<open>xs\<close> the collection holds for identity \<open>i\<close>: no record of that identity is cheaper
  than \<open>r\<close>, and \<open>r\<close> is the first record of that identity with its price.
\<close>

definition well_formed :: "itinerary \<Rightarrow> bool" where
  "well_formed x = (itin_id x \<noteq> None \<and> price x \<noteq> None)"

definition retained_for :: "itinerary list \<Rightarrow> string \<Rightarrow> itinerary \<Rightarrow> bool" where
  "retained_for xs i r =
     (find (\<lambda>x. itin_id x = Some i \<and> price_of x = price_of r) xs = Some r
      \<and> (\<forall>x\<in>set xs. itin_id x = Some i \<longrightarrow> price_of r \<le> price_of x))"

definition dedup_inv :: "itinerary list \<Rightarrow> (string \<times> itinerary) list \<Rightarrow> bool" where
  "dedup_inv xs d =
     (distinct (map fst d)
      \<and> fst ` set d = {i. \<exists>x\<in>set xs. itin_id x = Some i}
      \<and> (\<forall>i r. map_of d i = Some r \<longrightarrow> retained_for xs i r)
      \<and> (\<forall>x\<in>set xs. well_formed x))"

section \<open>Example data\<close>

text \<open>A segment from its two stations, carrier and flight code, without times.\<close>

definition flight :: "string \<Rightarrow> string \<Rightarrow> string \<Rightarrow> string \<Rightarrow> segment" where
  "flight src dst carrier code =
     \<lparr>sourceStationId = src, destinationStationId = dst, departureLocalTime = [],
      arrivalLocalTime = [], flightCode = code, carrierCode = carrier\<rparr>"

definition mk_itin :: "string \<Rightarrow> rat \<Rightarrow> segment list \<Rightarrow> segment list \<Rightarrow> itinerary" where
  "mk_itin i p out inb = \<lparr>itin_id = Some i, price = Some p, outbound = out, inbound = inb\<rparr>"

text \<open>
  Two Kiwi records of one identity (the same four KL flights in the same order, split
  three and one, and two and two, between the legs) at prices 50 and 60, a Kiwi record
  without segments, and an eDreams record at price 100.
\<close>

definition kiwi_3_1 :: itinerary where
  "kiwi_3_1 = mk_itin ''s4-c1-KL-1-KL-2-KL-3-KL-4'' 50
     [flight ''AMS'' ''BCN'' ''KL'' ''1'', flight ''BCN'' ''FCO'' ''KL'' ''2'', flight ''FCO'' ''LIS'' ''KL'' ''3'']
     [flight ''LIS'' ''AMS'' ''KL'' ''4'']"

definition kiwi_2_2 :: itinerary where
  "kiwi_2_2 = mk_itin ''s4-c1-KL-1-KL-2-KL-3-KL-4'' 60
     [flight ''AMS'' ''BCN'' ''KL'' ''1'', flight ''BCN'' ''LIS'' ''KL'' ''2'']
     [flight ''LIS'' ''FCO'' ''KL'' ''3'', flight ''FCO'' ''AMS'' ''KL'' ''4'']"

definition kiwi_no_segments :: itinerary where
  "kiwi_no_segments = mk_itin ''s0-c0-'' 80 [] []"

definition kiwi_without_id :: itinerary where
  "kiwi_without_id = \<lparr>itin_id = None, price = Some 70, outbound = [], inbound = []\<rparr>"

text \<open>A Kiwi record with the identity of the eDreams record below, at price 90, and a Kiwi
  record of another identity whose one flight string is one of the eDreams record's.\<close>

definition kiwi_direct :: itinerary where
  "kiwi_direct = mk_itin ''s2-c1-TP-9-TP-8'' 90
     [flight ''AMS'' ''LIS'' ''TP'' ''9''] [flight ''LIS'' ''AMS'' ''TP'' ''8'']"

definition kiwi_one_way :: itinerary where
  "kiwi_one_way = mk_itin ''s1-c1-TP-TP9'' 95 [flight ''AMS'' ''LIS'' ''TP'' ''TP9''] []"

definition edreams_direct :: itinerary where
  "edreams_direct = mk_itin ''s2-c1-TP-9-TP-8'' 100
     [flight ''AMS'' ''LIS'' ''TP'' ''TP9''] [flight ''LIS'' ''AMS'' ''TP'' ''TP8'']"

section \<open>Identity builders: results\<close>

lemma join_concat:
  "xs \<noteq> [] \<Longrightarrow> sep @ join sep xs = concat (map (\<lambda>x. sep @ x) xs)"
  by (induction sep xs rule: join.induct) simp_all

lemma identity_builders_agree_nonempty:
  assumes pairs: "edreams_pairs segments = kiwi_pairs itinerary"
    and count: "section_count = length (kiwi_pairs itinerary)"
    and nonempty: "kiwi_pairs itinerary \<noteq> []"
  shows "generate_edreams_itinerary_id segments section_count = generate_itinerary_id itinerary"
proof -
  let ?sectors = "k_outbound itinerary @ k_inbound itinerary"
  have carriers: "map carrierCode segments = map k_carrier_code ?sectors"
  proof -
    have "map fst (edreams_pairs segments) = map fst (kiwi_pairs itinerary)"
      using pairs by simp
    then show ?thesis by (simp add: edreams_pairs_def kiwi_pairs_def comp_def)
  qed
  have details: "map (\<lambda>seg. ''-'' @ carrierCode seg @ ''-'' @ drop 2 (flightCode seg)) segments
      = map (\<lambda>x. ''-'' @ x) (map (\<lambda>s. k_carrier_code s @ ''-'' @ k_code s) ?sectors)"
  proof -
    have "map (\<lambda>(c, f). ''-'' @ c @ ''-'' @ f) (edreams_pairs segments)
        = map (\<lambda>(c, f). ''-'' @ c @ ''-'' @ f) (kiwi_pairs itinerary)"
      using pairs by simp
    then show ?thesis by (simp add: edreams_pairs_def kiwi_pairs_def comp_def)
  qed
  have ne: "map (\<lambda>s. k_carrier_code s @ ''-'' @ k_code s) ?sectors \<noteq> []"
    using nonempty by (simp add: kiwi_pairs_def)
  have len: "section_count = length ?sectors"
    using count by (simp add: kiwi_pairs_def)
  have tail: "concat (map (\<lambda>seg. ''-'' @ carrierCode seg @ ''-'' @ drop 2 (flightCode seg)) segments)
      = ''-'' @ join ''-'' (map (\<lambda>s. k_carrier_code s @ ''-'' @ k_code s) ?sectors)"
    unfolding details by (rule join_concat[OF ne, symmetric])
  show ?thesis
    unfolding generate_edreams_itinerary_id_def generate_itinerary_id_def Let_def tail carriers len
    by simp
qed

text \<open>
  C1. Two itineraries with the same ordered (carrier, flight number) pairs and the same
  section count get the same identity from both builders. This fails for the itinerary
  without any segment (both leg lists empty, section count 0): the Kiwi builder always
  writes a dash after the carrier count and yields \<open>s0-c0-\<close>, the eDreams builder yields
  \<open>s0-c0\<close>. For itineraries with at least one segment the builders agree
  (\<open>identity_builders_agree_nonempty\<close>).
\<close>

theorem identity_builders_differ_on_empty:
  "edreams_pairs [] = kiwi_pairs \<lparr>k_outbound = [], k_inbound = []\<rparr>
   \<and> length (kiwi_pairs \<lparr>k_outbound = [], k_inbound = []\<rparr>) = 0
   \<and> generate_itinerary_id \<lparr>k_outbound = [], k_inbound = []\<rparr> = ''s0-c0-''
   \<and> generate_edreams_itinerary_id [] 0 = ''s0-c0''
   \<and> generate_itinerary_id \<lparr>k_outbound = [], k_inbound = []\<rparr> \<noteq> generate_edreams_itinerary_id [] 0"
  by (simp add: generate_itinerary_id_def generate_edreams_itinerary_id_def
      kiwi_pairs_def edreams_pairs_def str_nat.simps digit_char_def)

section \<open>Deduplication: the invariant of the loop\<close>

lemma dedup_loop_snoc:
  "dedup_loop d (xs @ [x]) = (case dedup_loop d xs of Inl e \<Rightarrow> Inl e | Inr d' \<Rightarrow> dedup_step d' x)"
  by (induction xs arbitrary: d) (auto split: sum.splits)

lemma find_snoc:
  "find P (xs @ [x]) = (case find P xs of None \<Rightarrow> (if P x then Some x else None) | Some y \<Rightarrow> Some y)"
  by (induction xs) auto

lemma keys_update: "fst ` set (AList.update k v d) = insert k (fst ` set d)"
proof -
  have "set (map fst (AList.update k v d)) = insert k (set (map fst d))"
    by (auto simp: update_keys)
  then show ?thesis by simp
qed

lemma retained_for_in_set: "retained_for xs i r \<Longrightarrow> r \<in> set xs \<and> itin_id r = Some i"
  by (auto simp: retained_for_def find_Some_iff)

lemma retained_for_snoc_other:
  assumes "retained_for xs i r" "itin_id x \<noteq> Some i"
  shows "retained_for (xs @ [x]) i r"
  using assms by (auto simp: retained_for_def find_snoc)

lemma retained_for_snoc_new:
  assumes "\<forall>y\<in>set xs. itin_id y \<noteq> Some i" "itin_id x = Some i"
  shows "retained_for (xs @ [x]) i x"
proof -
  have "find (\<lambda>y. itin_id y = Some i \<and> price_of y = price_of x) xs = None"
    using assms(1) by (auto simp: find_None_iff)
  then show ?thesis using assms by (auto simp: retained_for_def find_snoc)
qed

lemma retained_for_snoc_cheaper:
  assumes "retained_for xs i kept" "itin_id x = Some i" "price_of x < price_of kept"
  shows "retained_for (xs @ [x]) i x"
proof -
  have "find (\<lambda>y. itin_id y = Some i \<and> price_of y = price_of x) xs = None"
    using assms by (fastforce simp: retained_for_def find_None_iff)
  then show ?thesis using assms by (fastforce simp: retained_for_def find_snoc)
qed

lemma retained_for_snoc_keep:
  assumes "retained_for xs i kept" "\<not> price_of x < price_of kept"
  shows "retained_for (xs @ [x]) i kept"
  using assms by (auto simp: retained_for_def find_snoc)

lemma dedup_step_inv:
  assumes inv: "dedup_inv xs d" and step: "dedup_step d x = Inr d'"
  shows "dedup_inv (xs @ [x]) d'"
proof -
  from step obtain i p where idx: "itin_id x = Some i" and px: "price x = Some p"
    by (auto simp: dedup_step_def split: option.splits)
  have wf: "well_formed x" using idx px by (simp add: well_formed_def)
  have dist: "distinct (map fst d)" and keys: "fst ` set d = {i. \<exists>x\<in>set xs. itin_id x = Some i}"
    and ret: "\<And>j r. map_of d j = Some r \<Longrightarrow> retained_for xs j r"
    and wfs: "\<forall>x\<in>set xs. well_formed x"
    using inv by (auto simp: dedup_inv_def)
  show ?thesis
  proof (cases "map_of d i")
    case None
    then have d': "d' = AList.update i x d"
      using step idx px by (simp add: dedup_step_def)
    have "i \<notin> fst ` set d" using None by (simp add: map_of_eq_None_iff)
    then have fresh: "\<forall>y\<in>set xs. itin_id y \<noteq> Some i" using keys by auto
    show ?thesis
      unfolding dedup_inv_def d'
    proof (intro conjI allI impI)
      show "distinct (map fst (AList.update i x d))" using dist by (simp add: distinct_update)
      show "fst ` set (AList.update i x d) = {j. \<exists>y\<in>set (xs @ [x]). itin_id y = Some j}"
        using keys idx by (auto simp: keys_update)
      show "\<forall>y\<in>set (xs @ [x]). well_formed y" using wfs wf by simp
    next
      fix j r assume "map_of (AList.update i x d) j = Some r"
      then show "retained_for (xs @ [x]) j r"
        using retained_for_snoc_new[OF fresh idx] retained_for_snoc_other[OF ret, of j _ x] idx
        by (auto simp: update_conv' split: if_splits)
    qed
  next
    case (Some kept)
    have rk: "retained_for xs i kept" using ret Some by blast
    then have "kept \<in> set xs" by (simp add: retained_for_in_set)
    then obtain q where pk: "price kept = Some q" using wfs by (auto simp: well_formed_def)
    show ?thesis
    proof (cases "p < q")
      case True
      then have d': "d' = AList.update i x d"
        using step idx px Some pk by (simp add: dedup_step_def)
      have lt: "price_of x < price_of kept" using True px pk by (simp add: price_of_def)
      show ?thesis
        unfolding dedup_inv_def d'
      proof (intro conjI allI impI)
        show "distinct (map fst (AList.update i x d))" using dist by (simp add: distinct_update)
        show "fst ` set (AList.update i x d) = {j. \<exists>y\<in>set (xs @ [x]). itin_id y = Some j}"
          using keys idx by (auto simp: keys_update)
        show "\<forall>y\<in>set (xs @ [x]). well_formed y" using wfs wf by simp
      next
        fix j r assume "map_of (AList.update i x d) j = Some r"
        then show "retained_for (xs @ [x]) j r"
          using retained_for_snoc_cheaper[OF rk idx lt] retained_for_snoc_other[OF ret, of j _ x] idx
          by (auto simp: update_conv' split: if_splits)
      qed
    next
      case False
      then have d': "d' = d"
        using step idx px Some pk by (simp add: dedup_step_def)
      have nlt: "\<not> price_of x < price_of kept" using False px pk by (simp add: price_of_def)
      have "i \<in> fst ` set d" using Some by (metis map_of_eq_None_iff option.distinct(1))
      show ?thesis
        unfolding dedup_inv_def d'
      proof (intro conjI allI impI)
        show "distinct (map fst d)" by (rule dist)
        show "fst ` set d = {j. \<exists>y\<in>set (xs @ [x]). itin_id y = Some j}"
          using keys idx \<open>i \<in> fst ` set d\<close> by auto
        show "\<forall>y\<in>set (xs @ [x]). well_formed y" using wfs wf by simp
      next
        fix j r assume m: "map_of d j = Some r"
        show "retained_for (xs @ [x]) j r"
        proof (cases "j = i")
          case True
          then show ?thesis using m Some retained_for_snoc_keep[OF rk nlt] by simp
        next
          case False
          then show ?thesis using retained_for_snoc_other[OF ret[OF m], of x] idx by simp
        qed
      qed
    qed
  qed
qed

lemma dedup_inv_Nil: "dedup_inv [] []"
  by (simp add: dedup_inv_def)

lemma dedup_loop_inv:
  "dedup_loop [] xs = Inr d \<Longrightarrow> dedup_inv xs d"
proof (induction xs arbitrary: d rule: rev_induct)
  case Nil
  then show ?case by (simp add: dedup_inv_Nil)
next
  case (snoc x xs)
  then show ?case
    by (auto simp: dedup_loop_snoc dedup_step_inv split: sum.splits)
qed

lemma dedup_step_total:
  assumes inv: "dedup_inv xs d" and wf: "well_formed x"
  shows "\<exists>d'. dedup_step d x = Inr d'"
proof -
  from wf obtain i p where idx: "itin_id x = Some i" and px: "price x = Some p"
    by (auto simp: well_formed_def)
  show ?thesis
  proof (cases "map_of d i")
    case None
    then show ?thesis using idx px by (simp add: dedup_step_def)
  next
    case (Some kept)
    then have "retained_for xs i kept" using inv by (simp add: dedup_inv_def)
    then have "kept \<in> set xs" by (simp add: retained_for_in_set)
    then obtain q where "price kept = Some q" using inv by (auto simp: dedup_inv_def well_formed_def)
    then show ?thesis using idx px Some by (simp add: dedup_step_def)
  qed
qed

lemma dedup_loop_total:
  "\<forall>x\<in>set xs. well_formed x \<Longrightarrow> \<exists>d. dedup_loop [] xs = Inr d"
proof (induction xs rule: rev_induct)
  case Nil
  then show ?case by simp
next
  case (snoc x xs)
  then obtain d where d: "dedup_loop [] xs = Inr d" by auto
  from dedup_step_total[OF dedup_loop_inv[OF d]] snoc.prems
  show ?case by (simp add: dedup_loop_snoc d)
qed

section \<open>Hub counts: results\<close>

text \<open>
  C6. The hub count of every itinerary is max(outbound segments - 1, inbound segments - 1, 0)
  over the integers, so a leg without segments contributes 0; an itinerary with three
  outbound segments and one inbound segment has hub count 2.
\<close>

theorem compute_hub_count_max:
  "compute_hub_count itin
     = max (max (int (length (outbound itin)) - 1) (int (length (inbound itin)) - 1)) 0
   \<and> (length (outbound itin) = 3 \<and> length (inbound itin) = 1 \<longrightarrow> compute_hub_count itin = 2)"
proof (intro conjI impI)
  show "compute_hub_count itin
     = max (max (int (length (outbound itin)) - 1) (int (length (inbound itin)) - 1)) 0"
    by (cases "outbound itin"; cases "inbound itin") (simp_all add: compute_hub_count_def Let_def)
next
  assume "length (outbound itin) = 3 \<and> length (inbound itin) = 1"
  then show "compute_hub_count itin = 2"
    by (simp add: compute_hub_count_def Let_def)
qed

lemmas example_defs = kiwi_3_1_def kiwi_2_2_def kiwi_no_segments_def kiwi_without_id_def
  kiwi_direct_def kiwi_one_way_def edreams_direct_def mk_itin_def flight_def

text \<open>The witness of C6: three outbound segments, one inbound.\<close>

theorem compute_hub_count_max_witness:
  "length (outbound kiwi_3_1) = 3 \<and> length (inbound kiwi_3_1) = 1 \<and> compute_hub_count kiwi_3_1 = 2"
  using compute_hub_count_max [of kiwi_3_1] by (simp add: example_defs)

section \<open>Deduplication: results\<close>




section \<open>Failing records and empty collections\<close>

lemma dedup_loop_append:
  "dedup_loop d (xs @ ys) = (case dedup_loop d xs of Inl e \<Rightarrow> Inl e | Inr d' \<Rightarrow> dedup_loop d' ys)"
  by (induction xs arbitrary: d) (auto split: sum.splits)

lemma dedup_step_bad:
  "\<not> well_formed x \<Longrightarrow> dedup_step d x = Inl (if itin_id x = None then KeyError else PriceError)"
  by (auto simp: well_formed_def dedup_step_def split: option.splits)

lemma dedup_kiwi_bad:
  assumes good: "\<forall>x\<in>set xs. well_formed x" and bad: "\<not> well_formed x"
  shows "dedup_kiwi (xs @ x # ys) = Inl (if itin_id x = None then KeyError else PriceError)"
proof -
  from dedup_loop_total[OF good] obtain d where "dedup_loop [] xs = Inr d" ..
  then show ?thesis
    by (simp add: dedup_kiwi_def dedup_loop_append dedup_step_bad[OF bad])
qed

lemma dedup_kiwi_Inr_well_formed:
  "dedup_kiwi xs = Inr d \<Longrightarrow> \<forall>x\<in>set xs. well_formed x"
  using dedup_loop_inv[of xs d] by (simp add: dedup_kiwi_def dedup_inv_def)

lemma analyze_journey_dedup_error:
  "dedup_kiwi kiwi_data = Inl e \<Longrightarrow> analyze_journey hub_order kiwi_data edreams_data = Inl e"
  by (simp add: analyze_journey_def)

text \<open>
  C7, as the code has it. The deduplication loop has no handler: at the first record
  without an identity or without a price that reads as a number it raises (KeyError for
  the identity, the error of \<^verbatim>\<open>float\<close> for the price), no collection is built and the whole
  analysis of the journey ends with that error, whatever the other records are. A
  collection is returned exactly when every record is well formed.
\<close>

theorem dedup_raises_at_first_bad_record:
  "(list_all well_formed xs \<and> \<not> well_formed x \<longrightarrow>
      dedup_kiwi (xs @ x # ys) = Inl (if itin_id x = None then KeyError else PriceError)
      \<and> analyze_journey hub_order (xs @ x # ys) edreams_data
           = Inl (if itin_id x = None then KeyError else PriceError))
   \<and> ((\<exists>d. dedup_kiwi zs = Inr d) \<longleftrightarrow> list_all well_formed zs)"
proof (intro conjI impI)
  assume a: "list_all well_formed xs \<and> \<not> well_formed x"
  then have good: "\<forall>x\<in>set xs. well_formed x" and bad: "\<not> well_formed x"
    by (simp_all add: list_all_iff)
  show "dedup_kiwi (xs @ x # ys) = Inl (if itin_id x = None then KeyError else PriceError)"
    by (rule dedup_kiwi_bad[OF good bad])
  then show "analyze_journey hub_order (xs @ x # ys) edreams_data
           = Inl (if itin_id x = None then KeyError else PriceError)"
    by (rule analyze_journey_dedup_error)
next
  show "(\<exists>d. dedup_kiwi zs = Inr d) \<longleftrightarrow> list_all well_formed zs"
    using dedup_loop_total[of zs] dedup_kiwi_Inr_well_formed[of zs]
    unfolding list_all_iff dedup_kiwi_def by blast
qed

theorem dedup_raises_at_first_bad_record_witness:
  "list_all well_formed [kiwi_3_1] \<and> \<not> well_formed kiwi_without_id
   \<and> dedup_kiwi ([kiwi_3_1] @ kiwi_without_id # [kiwi_2_2]) = Inl KeyError
   \<and> analyze_journey [] ([kiwi_3_1] @ kiwi_without_id # [kiwi_2_2]) [edreams_direct] = Inl KeyError"
proof -
  have a: "list_all well_formed [kiwi_3_1] \<and> \<not> well_formed kiwi_without_id"
    by (simp add: well_formed_def example_defs)
  have b: "itin_id kiwi_without_id = None" by (simp add: example_defs)
  show ?thesis
    using a dedup_raises_at_first_bad_record
      [of "[kiwi_3_1]" kiwi_without_id "[kiwi_2_2]" "[]" "[edreams_direct]" "[]"]
    unfolding b by simp
qed

text \<open>
  The claim as stated fails: of two records the first is well formed and the second has
  no identity; the bad record is not set aside, the run ends with KeyError and there is
  no collection holding the good record.
\<close>

theorem dedup_does_not_exclude_bad_record:
  "well_formed kiwi_3_1 \<and> \<not> well_formed kiwi_without_id
   \<and> dedup_kiwi [kiwi_3_1, kiwi_without_id] = Inl KeyError
   \<and> analyze_journey [] [kiwi_3_1, kiwi_without_id] [edreams_direct] = Inl KeyError"
  by (simp add: well_formed_def example_defs dedup_kiwi_def dedup_step_def analyze_journey_def)

lemma pct_zero_denominator: "pct a 0 = 0"
  by (simp add: pct_def)

text \<open>
  C5. With an empty collection every percentage should be 0. The analysis never gets
  there: \<^verbatim>\<open>min\<close> over the prices of an empty list raises (lines 210 and 211, before any
  percentage is computed), so with the eDreams list empty, or the Kiwi list empty, the
  analysis returns no report at all. The guards \<^verbatim>\<open>if edreams_itinerary_ids else 0\<close> and
  \<^verbatim>\<open>if total_unique_kiwi else 0\<close> that follow show that the empty case was meant to be
  handled.
\<close>

theorem analyze_journey_empty_collection_raises:
  "analyze_journey hub_order [mk_itin ''s1-c1-AA-100'' 100 [] []] [] = Inl EmptyMinError
   \<and> (\<forall>r. analyze_journey hub_order kiwi_data [] \<noteq> Inr r)
   \<and> (\<forall>r. analyze_journey hub_order [] edreams_data \<noteq> Inr r)"
proof (intro conjI allI)
  show "analyze_journey hub_order [mk_itin ''s1-c1-AA-100'' 100 [] []] [] = Inl EmptyMinError"
    by (simp add: analyze_journey_def dedup_kiwi_def dedup_step_def min_price_def mk_itin_def)
  show "analyze_journey hub_order kiwi_data [] \<noteq> Inr r" for r
    by (simp add: analyze_journey_def min_price_def split: sum.splits)
  show "analyze_journey hub_order [] edreams_data \<noteq> Inr r" for r
    by (simp add: analyze_journey_def min_price_def dedup_kiwi_def split: sum.splits)
qed

section \<open>Reading the report\<close>

lemma read_prices_Inr:
  "read_prices data = Inr ps \<Longrightarrow> ps = map price_of data \<and> (\<forall>x\<in>set data. price x \<noteq> None)"
  by (induction data arbitrary: ps) (auto simp: price_of_def split: option.splits sum.splits)

lemma read_ids_Inr:
  "read_ids data = Inr is \<Longrightarrow> is = map id_of data \<and> (\<forall>x\<in>set data. itin_id x \<noteq> None)"
  by (induction data arbitrary: "is") (auto simp: id_of_def split: option.splits sum.splits)

lemma min_price_Inr:
  assumes "min_price data = Inr c"
  shows "data \<noteq> [] \<and> c = Min (price_of ` set data) \<and> (\<forall>x\<in>set data. price x \<noteq> None)"
proof -
  from assms obtain p ps where ps: "read_prices data = Inr (p # ps)" and c: "c = fold min ps p"
    by (auto simp: min_price_def split: sum.splits list.splits)
  from read_prices_Inr[OF ps] have eq: "p # ps = map price_of data"
    and some: "\<forall>x\<in>set data. price x \<noteq> None" by simp_all
  have "c = Min (set (p # ps))" unfolding c by (simp only: Min.set_eq_fold)
  then have "c = Min (price_of ` set data)" unfolding eq by simp
  moreover have "data \<noteq> []" using eq by auto
  ultimately show ?thesis using some by simp
qed

lemma analyze_journey_Inr:
  assumes "analyze_journey hub_order kiwi_data edreams_data = Inr r"
  obtains A c where
    "dedup_kiwi kiwi_data = Inr A"
    "min_price edreams_data = Inr c"
    "\<forall>x\<in>set edreams_data. itin_id x \<noteq> None"
    "percent_kiwi_cheaper_overall_of (map snd A) edreams_data c = Inr (percent_kiwi_cheaper_overall r)"
    "cheaper_than_edo_cheapest_count r = length (cheaper_than_edo_cheapest_itineraries kiwi_data c)"
    "percent_over_kiwi r = pct (length (cheaper_than_edo_cheapest_itineraries kiwi_data c)) (length (map snd A))"
    "Hub_Breakdown r = hub_breakdown hub_order (map snd A) (cheaper_than_edo_cheapest_itineraries kiwi_data c)"
    "Constructible r = constructible_count (map snd A) edreams_data"
    "format_distribution (hub_distribution (unique_cheap kiwi_data c)) (length (unique_cheap kiwi_data c))
       = Inr (Hubs_Distribution_Cheap_Kiwi r)"
proof -
  from assms obtain A where A: "dedup_kiwi kiwi_data = Inr A"
    by (auto simp: analyze_journey_def split: sum.splits)
  from assms A obtain il where il: "read_ids edreams_data = Inr il"
    by (auto simp: analyze_journey_def split: sum.splits)
  from assms A il obtain c where c: "min_price edreams_data = Inr c"
    by (auto simp: analyze_journey_def split: sum.splits)
  from assms A il c obtain ck where ck: "min_price kiwi_data = Inr ck"
    by (auto simp: analyze_journey_def split: sum.splits)
  from assms A il c ck obtain ov where ov: "percent_kiwi_cheaper_overall_of (map snd A) edreams_data c = Inr ov"
    by (auto simp: analyze_journey_def Let_def split: sum.splits)
  from assms A il c ck ov obtain fa where fa:
    "format_distribution (hub_distribution (unique_kiwi_for_hubs kiwi_data))
        (length (unique_kiwi_for_hubs kiwi_data)) = Inr fa"
    by (auto simp: analyze_journey_def Let_def split: sum.splits)
  from assms A il c ck ov fa obtain fc where fc:
    "format_distribution (hub_distribution (unique_cheap kiwi_data c)) (length (unique_cheap kiwi_data c)) = Inr fc"
    by (auto simp: analyze_journey_def Let_def split: sum.splits)
  note r = assms[unfolded analyze_journey_def Let_def, simplified A il c ck ov fa fc sum.case]
  show ?thesis
  proof (rule that[OF A c])
    show "\<forall>x\<in>set edreams_data. itin_id x \<noteq> None" using read_ids_Inr[OF il] by simp
    show "percent_kiwi_cheaper_overall_of (map snd A) edreams_data c = Inr (percent_kiwi_cheaper_overall r)"
      using r ov by auto
    show "cheaper_than_edo_cheapest_count r = length (cheaper_than_edo_cheapest_itineraries kiwi_data c)"
      using r by auto
    show "percent_over_kiwi r = pct (length (cheaper_than_edo_cheapest_itineraries kiwi_data c)) (length (map snd A))"
      using r by auto
    show "Hub_Breakdown r = hub_breakdown hub_order (map snd A) (cheaper_than_edo_cheapest_itineraries kiwi_data c)"
      using r by auto
    show "Constructible r = constructible_count (map snd A) edreams_data"
      using r by auto
    show "format_distribution (hub_distribution (unique_cheap kiwi_data c)) (length (unique_cheap kiwi_data c))
       = Inr (Hubs_Distribution_Cheap_Kiwi r)"
      using r fc by auto
  qed
qed

lemma dedup_kiwi_inv: "dedup_kiwi kiwi_data = Inr A \<Longrightarrow> dedup_inv kiwi_data A"
  by (simp add: dedup_kiwi_def dedup_loop_inv)

lemma dedup_kiwi_length:
  assumes "dedup_kiwi kiwi_data = Inr A"
  shows "length (map snd A) = card {i. \<exists>x\<in>set kiwi_data. itin_id x = Some i}"
proof -
  have inv: "dedup_inv kiwi_data A" by (rule dedup_kiwi_inv[OF assms])
  then have "distinct (map fst A)" by (simp add: dedup_inv_def)
  then have "card (set (map fst A)) = length (map fst A)" by (rule distinct_card)
  moreover have "set (map fst A) = {i. \<exists>x\<in>set kiwi_data. itin_id x = Some i}"
    using inv by (simp add: dedup_inv_def)
  ultimately show ?thesis by simp
qed

section \<open>Raw counts over deduplicated totals\<close>

text \<open>
  C9. The number of Kiwi itineraries below the cheapest eDreams price is counted over the
  raw list, one per record, and its percentage of Kiwi divides by the number of distinct
  identities of that list. On the list of two records of one identity, both cheaper than
  the one eDreams record, the count is 2 of 1 and the percentage is 200.
\<close>

theorem cheaper_count_raw_over_unique_total:
  "(analyze_journey hub_order kiwi_data edreams_data = Inr r \<longrightarrow>
      (\<exists>c. min_price edreams_data = Inr c
         \<and> c = Min (price_of ` set edreams_data)
         \<and> cheaper_than_edo_cheapest_count r = length (filter (\<lambda>entry. price_of entry < c) kiwi_data)
         \<and> percent_over_kiwi r
             = pct (length (filter (\<lambda>entry. price_of entry < c) kiwi_data))
                   (card {i. \<exists>x\<in>set kiwi_data. itin_id x = Some i})))
   \<and> (\<exists>k e c r'. analyze_journey [] k e = Inr r' \<and> min_price e = Inr c
         \<and> \<not> distinct (map itin_id k) \<and> list_all (\<lambda>entry. price_of entry < c) k
         \<and> 100 < percent_over_kiwi r')"
proof (intro conjI impI)
  assume a: "analyze_journey hub_order kiwi_data edreams_data = Inr r"
  from analyze_journey_Inr[OF a] obtain A c where
    A: "dedup_kiwi kiwi_data = Inr A" and c: "min_price edreams_data = Inr c"
    and n: "cheaper_than_edo_cheapest_count r = length (cheaper_than_edo_cheapest_itineraries kiwi_data c)"
    and p: "percent_over_kiwi r = pct (length (cheaper_than_edo_cheapest_itineraries kiwi_data c)) (length (map snd A))"
    by metis
  have len: "length (cheaper_than_edo_cheapest_itineraries kiwi_data c)
      = length (filter (\<lambda>entry. price_of entry < c) kiwi_data)"
    by (simp add: cheaper_than_edo_cheapest_itineraries_def)
  have "c = Min (price_of ` set edreams_data)" using min_price_Inr[OF c] by simp
  then show "\<exists>c. min_price edreams_data = Inr c
         \<and> c = Min (price_of ` set edreams_data)
         \<and> cheaper_than_edo_cheapest_count r = length (filter (\<lambda>entry. price_of entry < c) kiwi_data)
         \<and> percent_over_kiwi r
             = pct (length (filter (\<lambda>entry. price_of entry < c) kiwi_data))
                   (card {i. \<exists>x\<in>set kiwi_data. itin_id x = Some i})"
    using c n p unfolding len dedup_kiwi_length[OF A] by blast
next
  have run: "(case analyze_journey [] [kiwi_3_1, kiwi_2_2] [edreams_direct] of
        Inl e \<Rightarrow> False
      | Inr r' \<Rightarrow> min_price [edreams_direct] = Inr 100
           \<and> \<not> distinct (map itin_id [kiwi_3_1, kiwi_2_2])
           \<and> list_all (\<lambda>entry. price_of entry < 100) [kiwi_3_1, kiwi_2_2]
           \<and> 100 < percent_over_kiwi r')"
    by code_simp
  then obtain r' where "analyze_journey [] [kiwi_3_1, kiwi_2_2] [edreams_direct] = Inr r'"
    and "min_price [edreams_direct] = Inr 100"
    and "\<not> distinct (map itin_id [kiwi_3_1, kiwi_2_2])"
    and "list_all (\<lambda>entry. price_of entry < 100) [kiwi_3_1, kiwi_2_2]"
    and "100 < percent_over_kiwi r'"
    by (cases "analyze_journey [] [kiwi_3_1, kiwi_2_2] [edreams_direct]") simp_all
  then show "\<exists>k e c r'. analyze_journey [] k e = Inr r' \<and> min_price e = Inr c
         \<and> \<not> distinct (map itin_id k) \<and> list_all (\<lambda>entry. price_of entry < c) k
         \<and> 100 < percent_over_kiwi r'"
    by blast
qed

theorem cheaper_count_raw_over_unique_total_witness:
  "\<exists>r c. analyze_journey [] [kiwi_3_1, kiwi_2_2] [edreams_direct] = Inr r
     \<and> min_price [edreams_direct] = Inr c
     \<and> cheaper_than_edo_cheapest_count r = length (filter (\<lambda>entry. price_of entry < c) [kiwi_3_1, kiwi_2_2])
     \<and> percent_over_kiwi r
         = pct (length (filter (\<lambda>entry. price_of entry < c) [kiwi_3_1, kiwi_2_2]))
               (card {i. \<exists>x\<in>set [kiwi_3_1, kiwi_2_2]. itin_id x = Some i})"
proof -
  have "(case analyze_journey [] [kiwi_3_1, kiwi_2_2] [edreams_direct] of Inl e \<Rightarrow> False | Inr r \<Rightarrow> True)"
    by code_simp
  then obtain r where r: "analyze_journey [] [kiwi_3_1, kiwi_2_2] [edreams_direct] = Inr r"
    by (cases "analyze_journey [] [kiwi_3_1, kiwi_2_2] [edreams_direct]") simp_all
  from cheaper_count_raw_over_unique_total
    [of "[]" "[kiwi_3_1, kiwi_2_2]" "[edreams_direct]" r] r
  show ?thesis by blast
qed

section \<open>The second deduplication, for the hub distributions\<close>




section \<open>The order of the hub breakdown\<close>

text \<open>
  C8. Two runs on the same documents should give the same report. The rows of the hub
  breakdown are appended while iterating over the Python set \<open>missing_locations\<close> and are
  never sorted (the joined list of missing hubs, the missing flights and the hub
  distributions are), so they come in the order the interpreter happens to iterate the
  set. For the Kiwi itinerary through BCN and FCO, both absent from eDreams, the two
  iteration orders of the set give two different reports.
\<close>

theorem hub_breakdown_depends_on_iteration_order:
  "iteration_order_of [''BCN'', ''FCO''] (missing_locations [kiwi_3_1] [edreams_direct])
   \<and> iteration_order_of [''FCO'', ''BCN''] (missing_locations [kiwi_3_1] [edreams_direct])
   \<and> (\<exists>r1 r2. analyze_journey [''BCN'', ''FCO''] [kiwi_3_1] [edreams_direct] = Inr r1
         \<and> analyze_journey [''FCO'', ''BCN''] [kiwi_3_1] [edreams_direct] = Inr r2
         \<and> Missing_Hub_Cities r1 = missing_locations [kiwi_3_1] [edreams_direct]
         \<and> Missing_Hub_Cities r2 = missing_locations [kiwi_3_1] [edreams_direct]
         \<and> map Hub (Hub_Breakdown r1) = [''BCN'', ''FCO'']
         \<and> map Hub (Hub_Breakdown r2) = [''FCO'', ''BCN'']
         \<and> r1 \<noteq> r2)"
proof (intro conjI)
  show "iteration_order_of [''BCN'', ''FCO''] (missing_locations [kiwi_3_1] [edreams_direct])"
    by code_simp
  show "iteration_order_of [''FCO'', ''BCN''] (missing_locations [kiwi_3_1] [edreams_direct])"
    by code_simp
  have run: "(case analyze_journey [''BCN'', ''FCO''] [kiwi_3_1] [edreams_direct] of
        Inl e \<Rightarrow> False
      | Inr r1 \<Rightarrow>
         (case analyze_journey [''FCO'', ''BCN''] [kiwi_3_1] [edreams_direct] of
            Inl e \<Rightarrow> False
          | Inr r2 \<Rightarrow> Missing_Hub_Cities r1 = missing_locations [kiwi_3_1] [edreams_direct]
               \<and> Missing_Hub_Cities r2 = missing_locations [kiwi_3_1] [edreams_direct]
               \<and> map Hub (Hub_Breakdown r1) = [''BCN'', ''FCO'']
               \<and> map Hub (Hub_Breakdown r2) = [''FCO'', ''BCN'']))"
    by code_simp
  then obtain r1 r2 where r1: "analyze_journey [''BCN'', ''FCO''] [kiwi_3_1] [edreams_direct] = Inr r1"
    and r2: "analyze_journey [''FCO'', ''BCN''] [kiwi_3_1] [edreams_direct] = Inr r2"
    and m1: "Missing_Hub_Cities r1 = missing_locations [kiwi_3_1] [edreams_direct]"
    and m2: "Missing_Hub_Cities r2 = missing_locations [kiwi_3_1] [edreams_direct]"
    and h1: "map Hub (Hub_Breakdown r1) = [''BCN'', ''FCO'']"
    and h2: "map Hub (Hub_Breakdown r2) = [''FCO'', ''BCN'']"
    by (cases "analyze_journey [''BCN'', ''FCO''] [kiwi_3_1] [edreams_direct]";
        cases "analyze_journey [''FCO'', ''BCN''] [kiwi_3_1] [edreams_direct]") simp_all
  have ne: "r1 \<noteq> r2" using h1 h2 by auto
  show "\<exists>r1 r2. analyze_journey [''BCN'', ''FCO''] [kiwi_3_1] [edreams_direct] = Inr r1
         \<and> analyze_journey [''FCO'', ''BCN''] [kiwi_3_1] [edreams_direct] = Inr r2
         \<and> Missing_Hub_Cities r1 = missing_locations [kiwi_3_1] [edreams_direct]
         \<and> Missing_Hub_Cities r2 = missing_locations [kiwi_3_1] [edreams_direct]
         \<and> map Hub (Hub_Breakdown r1) = [''BCN'', ''FCO'']
         \<and> map Hub (Hub_Breakdown r2) = [''FCO'', ''BCN'']
         \<and> r1 \<noteq> r2"
    by (intro exI[of _ r1] exI[of _ r2] conjI r1 r2 m1 m2 h1 h2 ne)
qed

section \<open>Constructibility\<close>

lemma flight_strings_iff:
  "s \<in> flight_strings segs \<longleftrightarrow>
     (\<exists>seg\<in>set segs. carrierCode seg \<noteq> [] \<and> flightCode seg \<noteq> [] \<and> s = carrierCode seg @ flightCode seg)"
  by (auto simp: flight_strings_def)

lemma edreams_flights_iff:
  "s \<in> edreams_flights edreams_data \<longleftrightarrow>
     (\<exists>b\<in>set edreams_data. \<exists>seg\<in>set (outbound b @ inbound b).
         carrierCode seg \<noteq> [] \<and> flightCode seg \<noteq> [] \<and> s = carrierCode seg @ flightCode seg)"
  unfolding edreams_flights_def flight_strings_iff by auto

lemma flight_strings_nonempty:
  "flight_strings segs \<noteq> {} \<longleftrightarrow> (\<exists>seg\<in>set segs. carrierCode seg \<noteq> [] \<and> flightCode seg \<noteq> [])"
  unfolding flight_strings_def by (auto simp: filter_empty_conv)

lemma flight_strings_subset:
  "flight_strings segs \<subseteq> flights \<longleftrightarrow>
     (\<forall>seg\<in>set segs. carrierCode seg \<noteq> [] \<and> flightCode seg \<noteq> [] \<longrightarrow> carrierCode seg @ flightCode seg \<in> flights)"
  unfolding flight_strings_def by auto

lemma constructible_iff:
  "constructible flights itin \<longleftrightarrow>
     (\<exists>seg\<in>set (outbound itin @ inbound itin). carrierCode seg \<noteq> [] \<and> flightCode seg \<noteq> [])
     \<and> (\<forall>seg\<in>set (outbound itin @ inbound itin).
           carrierCode seg \<noteq> [] \<and> flightCode seg \<noteq> [] \<longrightarrow> carrierCode seg @ flightCode seg \<in> flights)"
  unfolding constructible_def Let_def flight_strings_nonempty flight_strings_subset ..

lemma constructible_count_unfold:
  "constructible_count unique_kiwi edreams_data =
     length (filter (\<lambda>it. id_of it \<notin> ids edreams_data \<and> constructible (edreams_flights edreams_data) it)
               unique_kiwi)"
  unfolding constructible_count_def missing_in_edreams_def ids_def
  by (rule arg_cong[where f = length], rule filter_cong) auto

text \<open>
  C4, as the code has it. An itinerary is counted constructible exactly when at least one
  of its segments has a carrier and a flight code and the string carrier + flight code of
  every such segment is the string of some segment of some eDreams itinerary. Segments
  without carrier or flight code are passed over. Appending a segment whose string
  occurs nowhere in eDreams makes the itinerary non-constructible. The count reported is
  the number of records of the deduplicated Kiwi collection whose identity is not an
  eDreams identity and that pass this test.
\<close>

theorem constructible_iff_nonempty_subset:
  "(constructible (edreams_flights edreams_data) itin \<longleftrightarrow>
      (\<exists>seg\<in>set (outbound itin @ inbound itin). carrierCode seg \<noteq> [] \<and> flightCode seg \<noteq> [])
      \<and> (\<forall>seg\<in>set (outbound itin @ inbound itin).
            carrierCode seg \<noteq> [] \<and> flightCode seg \<noteq> [] \<longrightarrow>
            (\<exists>b\<in>set edreams_data. \<exists>s\<in>set (outbound b @ inbound b).
                carrierCode s \<noteq> [] \<and> flightCode s \<noteq> []
                \<and> carrierCode seg @ flightCode seg = carrierCode s @ flightCode s)))
   \<and> (carrierCode extra \<noteq> [] \<and> flightCode extra \<noteq> []
        \<and> carrierCode extra @ flightCode extra \<notin> edreams_flights edreams_data \<longrightarrow>
        \<not> constructible (edreams_flights edreams_data) (itin\<lparr>outbound := outbound itin @ [extra]\<rparr>))
   \<and> (analyze_journey hub_order kiwi_data edreams_data = Inr r \<longrightarrow>
        (\<exists>A. dedup_kiwi kiwi_data = Inr A
           \<and> Constructible r
               = length (filter (\<lambda>it. id_of it \<notin> ids edreams_data
                                     \<and> constructible (edreams_flights edreams_data) it) (map snd A))))"
proof (intro conjI impI)
  show "constructible (edreams_flights edreams_data) itin \<longleftrightarrow>
      (\<exists>seg\<in>set (outbound itin @ inbound itin). carrierCode seg \<noteq> [] \<and> flightCode seg \<noteq> [])
      \<and> (\<forall>seg\<in>set (outbound itin @ inbound itin).
            carrierCode seg \<noteq> [] \<and> flightCode seg \<noteq> [] \<longrightarrow>
            (\<exists>b\<in>set edreams_data. \<exists>s\<in>set (outbound b @ inbound b).
                carrierCode s \<noteq> [] \<and> flightCode s \<noteq> []
                \<and> carrierCode seg @ flightCode seg = carrierCode s @ flightCode s))"
    unfolding constructible_iff edreams_flights_iff ..
next
  assume "carrierCode extra \<noteq> [] \<and> flightCode extra \<noteq> []
        \<and> carrierCode extra @ flightCode extra \<notin> edreams_flights edreams_data"
  then show "\<not> constructible (edreams_flights edreams_data) (itin\<lparr>outbound := outbound itin @ [extra]\<rparr>)"
    unfolding constructible_iff by auto
next
  assume a: "analyze_journey hub_order kiwi_data edreams_data = Inr r"
  from analyze_journey_Inr[OF a] obtain A where
    A: "dedup_kiwi kiwi_data = Inr A" and n: "Constructible r = constructible_count (map snd A) edreams_data"
    by metis
  show "\<exists>A. dedup_kiwi kiwi_data = Inr A
           \<and> Constructible r
               = length (filter (\<lambda>it. id_of it \<notin> ids edreams_data
                                     \<and> constructible (edreams_flights edreams_data) it) (map snd A))"
    using A n unfolding constructible_count_unfold by blast
qed

theorem constructible_iff_nonempty_subset_witness:
  "constructible (edreams_flights [edreams_direct]) kiwi_one_way
   \<and> carrierCode (flight ''LIS'' ''OPO'' ''TP'' ''TP7'') @ flightCode (flight ''LIS'' ''OPO'' ''TP'' ''TP7'')
        \<notin> edreams_flights [edreams_direct]
   \<and> \<not> constructible (edreams_flights [edreams_direct])
         (kiwi_one_way\<lparr>outbound := outbound kiwi_one_way @ [flight ''LIS'' ''OPO'' ''TP'' ''TP7'']\<rparr>)
   \<and> (\<exists>r. analyze_journey [] [kiwi_one_way, kiwi_no_segments] [edreams_direct] = Inr r
          \<and> Constructible r = 1)"
proof -
  have c: "constructible (edreams_flights [edreams_direct]) kiwi_one_way"
    by code_simp
  have h: "carrierCode (flight ''LIS'' ''OPO'' ''TP'' ''TP7'') \<noteq> []
      \<and> flightCode (flight ''LIS'' ''OPO'' ''TP'' ''TP7'') \<noteq> []
      \<and> carrierCode (flight ''LIS'' ''OPO'' ''TP'' ''TP7'') @ flightCode (flight ''LIS'' ''OPO'' ''TP'' ''TP7'')
          \<notin> edreams_flights [edreams_direct]"
    by code_simp
  have run: "(case analyze_journey [] [kiwi_one_way, kiwi_no_segments] [edreams_direct] of
       Inl e \<Rightarrow> False | Inr r \<Rightarrow> Constructible r = 1)"
    by code_simp
  then obtain r where r: "analyze_journey [] [kiwi_one_way, kiwi_no_segments] [edreams_direct] = Inr r"
    and n: "Constructible r = 1"
    by (cases "analyze_journey [] [kiwi_one_way, kiwi_no_segments] [edreams_direct]") simp_all
  have e: "\<exists>r. analyze_journey [] [kiwi_one_way, kiwi_no_segments] [edreams_direct] = Inr r
          \<and> Constructible r = 1"
    by (intro exI[of _ r] conjI r n)
  from constructible_iff_nonempty_subset
    [of "[edreams_direct]" kiwi_one_way "flight ''LIS'' ''OPO'' ''TP'' ''TP7''"] h
  have "\<not> constructible (edreams_flights [edreams_direct])
         (kiwi_one_way\<lparr>outbound := outbound kiwi_one_way @ [flight ''LIS'' ''OPO'' ''TP'' ''TP7'']\<rparr>)"
    by (elim conjE impE) simp_all
  with c h e show ?thesis by simp
qed

text \<open>
  The claim as stated fails for an itinerary none of whose segments has both a carrier
  and a flight code, in particular one without segments: every one of its flight strings
  occurs in eDreams (it has none), its identity is missing from eDreams, and the
  analysis does not count it constructible.
\<close>

theorem empty_flight_set_not_constructible:
  "flight_strings (outbound kiwi_no_segments @ inbound kiwi_no_segments) \<subseteq> edreams_flights [edreams_direct]
   \<and> id_of kiwi_no_segments \<in> missing_in_edreams [kiwi_no_segments] [edreams_direct]
   \<and> \<not> constructible (edreams_flights [edreams_direct]) kiwi_no_segments
   \<and> (\<exists>r. analyze_journey [] [kiwi_no_segments] [edreams_direct] = Inr r
          \<and> missing_content r = 1 \<and> Constructible r = 0)"
proof -
  have a: "flight_strings (outbound kiwi_no_segments @ inbound kiwi_no_segments) \<subseteq> edreams_flights [edreams_direct]
   \<and> id_of kiwi_no_segments \<in> missing_in_edreams [kiwi_no_segments] [edreams_direct]
   \<and> \<not> constructible (edreams_flights [edreams_direct]) kiwi_no_segments"
    by code_simp
  have run: "(case analyze_journey [] [kiwi_no_segments] [edreams_direct] of
       Inl e \<Rightarrow> False | Inr r \<Rightarrow> missing_content r = 1 \<and> Constructible r = 0)"
    by code_simp
  then obtain r where r: "analyze_journey [] [kiwi_no_segments] [edreams_direct] = Inr r"
    and m: "missing_content r = 1" and n: "Constructible r = 0"
    by (cases "analyze_journey [] [kiwi_no_segments] [edreams_direct]") simp_all
  have "\<exists>r. analyze_journey [] [kiwi_no_segments] [edreams_direct] = Inr r
          \<and> missing_content r = 1 \<and> Constructible r = 0"
    by (intro exI[of _ r] conjI r m n)
  with a show ?thesis by simp
qed

section \<open>The overall share of cheaper Kiwi itineraries\<close>







section \<open>The standalone duplicate remover\<close>

text \<open>\<^verbatim>\<open>remove_duplicates\<close> of test1/remove-duplicates.py is not the deduplication of the
  analysis: it keeps the first record of an identity and never reads a price.\<close>

lemma remove_duplicates_keeps_first_seen:
  "remove_duplicates [kiwi_2_2, kiwi_3_1, kiwi_without_id] = [kiwi_2_2]"
  by (simp add: remove_duplicates_def example_defs)

end
